theory Spec2Isabelle
  imports Complex_Main
begin

section \<open>Data model\<close>

text \<open>
  The \<open>Product\<close> type of the product service: \<open>id\<close>, \<open>name\<close>, \<open>sku\<close> and
  \<open>category\<close> are strings, \<open>stock\<close> is a number. The field \<open>id\<close> is written \<open>id'\<close>
  here, since \<open>id\<close> is the identity function of HOL. Numbers that hold counts, pages and
  stock quantities are modelled as unbounded integers. A string is a list of characters,
  and a character stands for the code unit of the same number, from U+0000 to U+00FF
  (Basic Latin and the Latin-1 Supplement).
\<close>

record Product =
  id' :: string
  name :: string
  sku :: string
  category :: string
  stock :: int

text \<open>
  The state of the \<open>Home\<close> component: one field for each \<open>useState\<close> hook and one for the
  URL search parameters of \<open>useSearchParams\<close> (an ordered list of key/value pairs). The
  last two fields are the part of the JavaScript runtime that \<open>setTimeout\<close> touches: the
  current time in milliseconds and the due times of the pending callbacks, each of which
  is \<open>() => setSuccessMessage(null)\<close>, in the order in which they were scheduled.
\<close>

record Home =
  products :: "Product list"
  loading :: bool
  error :: "string option"
  currentPage :: int
  modalProduct :: "Product option"
  successMessage :: "string option"
  searchParams :: "(string \<times> string) list"
  now :: nat
  timers :: "nat list"

section \<open>String operations of the language\<close>

text \<open>
  \<open>String.prototype.toLowerCase\<close> on these characters: the capital letters U+0041 to
  U+005A (\<open>A\<close> to \<open>Z\<close>) and U+00C0 to U+00DE without the multiplication sign U+00D7 are
  moved 32 places up, to their small letters; every other character is kept. On these
  characters the mapping of a string is the mapping of each of its characters.
\<close>

definition toLowerChar :: "char \<Rightarrow> char" where
  "toLowerChar c =
     (let n = (of_char c :: nat) in
      if (65 \<le> n \<and> n \<le> 90) \<or> (192 \<le> n \<and> n \<le> 222 \<and> n \<noteq> 215)
      then char_of (n + 32) else c)"

definition toLowerCase :: "string \<Rightarrow> string" where
  "toLowerCase s = map toLowerChar s"

text \<open>
  \<open>hay.startsWith(needle)\<close> and \<open>hay.includes(needle)\<close>; the latter is written
  \<open>includesStr\<close>, since \<open>includes\<close> is a keyword of Isabelle.
\<close>

definition startsWith :: "string \<Rightarrow> string \<Rightarrow> bool" where
  "startsWith hay needle = (take (length needle) hay = needle)"

fun includesStr :: "string \<Rightarrow> string \<Rightarrow> bool" where
  "includesStr [] needle = (needle = [])"
| "includesStr (c # cs) needle = (startsWith (c # cs) needle \<or> includesStr cs needle)"

section \<open>Derived views of the component\<close>

text \<open>\<open>searchParams.get("search") || ""\<close>: the first value stored under the key, if any.\<close>

definition searchQuery :: "Home \<Rightarrow> string" where
  "searchQuery h = (case map_of (searchParams h) ''search'' of None \<Rightarrow> [] | Some v \<Rightarrow> v)"

definition productsPerPage :: int where
  "productsPerPage = 20"

definition matchesSearch :: "string \<Rightarrow> Product \<Rightarrow> bool" where
  "matchesSearch q p = includesStr (toLowerCase (name p)) (toLowerCase q)"

definition filteredProducts :: "Home \<Rightarrow> Product list" where
  "filteredProducts h = filter (matchesSearch (searchQuery h)) (products h)"






text \<open>
  \<open>Array.prototype.slice(start, end)\<close>: a negative index counts from the end, an index
  beyond the length is the length, and an empty range gives the empty list.
\<close>

definition slice :: "'a list \<Rightarrow> int \<Rightarrow> int \<Rightarrow> 'a list" where
  "slice xs start end' =
     (let len = int (length xs);
          k = (if start < 0 then max (len + start) 0 else min start len);
          final = (if end' < 0 then max (len + end') 0 else min end' len)
      in take (nat (final - k)) (drop (nat k) xs))"

definition currentProducts :: "Home \<Rightarrow> Product list" where
  "currentProducts h =
     slice (filteredProducts h) ((currentPage h - 1) * productsPerPage)
       (currentPage h * productsPerPage)"

definition lowStockCount :: "Home \<Rightarrow> int" where
  "lowStockCount h = int (length (filter (\<lambda>p. stock p < 10) (filteredProducts h)))"

section \<open>Pagination helpers\<close>

text \<open>
  \<open>Math.ceil(a / b)\<close> for integers \<open>a\<close> and a positive integer \<open>b\<close>, in integer
  arithmetic; \<open>mathCeilDiv_ceiling\<close> below shows that it is the ceiling of the quotient.
\<close>

definition mathCeilDiv :: "int \<Rightarrow> int \<Rightarrow> int" where
  "mathCeilDiv a b = - ((- a) div b)"

definition totalPages :: "Home \<Rightarrow> int" where
  "totalPages h = mathCeilDiv (int (length (filteredProducts h))) productsPerPage"

definition paginate :: "int \<Rightarrow> Home \<Rightarrow> Home" where
  "paginate page h = h\<lparr>currentPage := page\<rparr>"

text \<open>
  The elements of the array \<open>pages\<close>, of type \<open>(number | string)[]\<close>. The loop
  \<open>for (let i = lo; i <= hi; i++) pages.push(i)\<close> is \<open>pushPages lo hi pages\<close>.
\<close>

datatype PageItem = Num int | Str string

function pushPages :: "int \<Rightarrow> int \<Rightarrow> PageItem list \<Rightarrow> PageItem list" where
  "pushPages i hi pages = (if i \<le> hi then pushPages (i + 1) hi (pages @ [Num i]) else pages)"
  by pat_completeness auto
termination
  by (relation "measure (\<lambda>(i, hi, pages). nat (hi + 1 - i))") auto

text \<open>
  \<open>getPageButtons\<close> reads \<open>totalPages\<close> and \<open>currentPage\<close> from the component; they are
  the two arguments of \<open>getPageButtonsOf\<close>. \<open>totalPages || 1\<close> is 1 when \<open>totalPages\<close> is 0.
\<close>

definition getPageButtonsOf :: "int \<Rightarrow> int \<Rightarrow> PageItem list" where
  "getPageButtonsOf totalPages' currentPage' =
     (let total = (if totalPages' = 0 then 1 else totalPages') in
      if total \<le> 5 then pushPages 1 total []
      else
        let pages = [Num 1];
            pages = (if currentPage' > 3 then pages @ [Str ''...''] else pages);
            pages = pushPages (max 2 (currentPage' - 1)) (min (total - 1) (currentPage' + 1)) pages;
            pages = (if currentPage' < total - 2 then pages @ [Str ''...''] else pages)
        in pages @ [Num total])"

definition getPageButtons :: "Home \<Rightarrow> PageItem list" where
  "getPageButtons h = getPageButtonsOf (totalPages h) (currentPage h)"

text \<open>The \<open>disabled\<close> attributes of the Previous and Next buttons.\<close>

definition previousDisabled :: "Home \<Rightarrow> bool" where
  "previousDisabled h = (currentPage h = 1)"

definition nextDisabled :: "Home \<Rightarrow> bool" where
  "nextDisabled h = (currentPage h = totalPages h)"

section \<open>Handlers\<close>

text \<open>
  \<open>handleSearch\<close>, with the text of the input as its argument: \<open>setSearchParams\<close> replaces
  the whole parameter list.
\<close>

definition handleSearch :: "string \<Rightarrow> Home \<Rightarrow> Home" where
  "handleSearch v h =
     h\<lparr>searchParams := (if v \<noteq> [] then [(''search'', v)] else []), currentPage := 1\<rparr>"

definition openModal :: "Product \<Rightarrow> Home \<Rightarrow> Home" where
  "openModal product h = h\<lparr>modalProduct := Some product\<rparr>"

definition closeModal :: "Home \<Rightarrow> Home" where
  "closeModal h = h\<lparr>modalProduct := None\<rparr>"

text \<open>The decimal text of an integer, as a template literal prints a number.\<close>

definition digitChar :: "nat \<Rightarrow> char" where
  "digitChar d = char_of (48 + d)"

function digitsOf :: "nat \<Rightarrow> string" where
  "digitsOf n = (if n < 10 then [digitChar n] else digitsOf (n div 10) @ [digitChar (n mod 10)])"
  by pat_completeness auto
termination
  by (relation "measure (\<lambda>n. n)") auto

definition numberToString :: "int \<Rightarrow> string" where
  "numberToString i = (if i < 0 then CHR ''-'' # digitsOf (nat (- i)) else digitsOf (nat i))"

text \<open>
  \<open>setTimeout(f, delay)\<close> appends a callback due at \<open>now + delay\<close>; the only callback of
  the component is \<open>() => setSuccessMessage(null)\<close>. No call of \<open>clearTimeout\<close> exists.
\<close>

definition setTimeout :: "nat \<Rightarrow> Home \<Rightarrow> Home" where
  "setTimeout delay h = h\<lparr>timers := timers h @ [now h + delay]\<rparr>"

text \<open>
  \<open>updateStock\<close>: the optimistic update of the list, the success message (with
  \<open>products.find(...)?.name || "Product"\<close>, which is \<open>"Product"\<close> when no product has the id
  and when the name is empty), the timer and \<open>closeModal\<close>.
\<close>

definition productNameOf :: "string \<Rightarrow> Product list \<Rightarrow> string" where
  "productNameOf pid ps =
     (case find (\<lambda>p. id' p = pid) ps of
        None \<Rightarrow> ''Product''
      | Some p \<Rightarrow> if name p = [] then ''Product'' else name p)"

definition stockMessage :: "string \<Rightarrow> int \<Rightarrow> string" where
  "stockMessage productName newStock =
     ''Stock for '' @ [CHR 0x22] @ productName @ [CHR 0x22] @ '' updated to ''
       @ numberToString newStock"

definition updateStock :: "string \<Rightarrow> int \<Rightarrow> Home \<Rightarrow> Home" where
  "updateStock pid newStock h =
     (let productName = productNameOf pid (products h);
          h1 = h\<lparr>products := map (\<lambda>p. if id' p = pid then p\<lparr>stock := newStock\<rparr> else p) (products h)\<rparr>;
          h2 = h1\<lparr>successMessage := Some (stockMessage productName newStock)\<rparr>;
          h3 = setTimeout 3000 h2
      in closeModal h3)"

text \<open>
  The passing of time: \<open>advanceTo t\<close> moves the clock to \<open>t\<close>, runs every pending callback
  that is due by then, each of which sets the success message to \<open>null\<close>, and keeps the
  others pending.
\<close>

definition advanceTo :: "nat \<Rightarrow> Home \<Rightarrow> Home" where
  "advanceTo t h =
     (if t < now h then h
      else h\<lparr>now := t,
             timers := filter (\<lambda>d. t < d) (timers h),
             successMessage := (if list_ex (\<lambda>d. d \<le> t) (timers h) then None else successMessage h)\<rparr>)"

section \<open>Stock form\<close>

text \<open>
  The form library checks the rules that \<open>register("stock", ...)\<close> declares on the text
  \<open>v\<close> that the user has entered, in the order \<open>required\<close>, \<open>min\<close>, \<open>pattern\<close>, and stops
  at the first rule that rejects; the message of that rule is \<open>errors.stock.message\<close>.
  The \<open>min\<close> and \<open>pattern\<close> rules are not applied to the empty text.

  The \<open>min\<close> rule with value 0 rejects when \<open>+v < 0\<close>. The conversion of a text to a
  number skips white space at both ends (in this character set: U+0009 to U+000D, U+0020
  and U+00A0); the number is below zero exactly when a minus sign follows, and after it
  either \<open>Infinity\<close> or an unsigned decimal literal (digits, an optional fraction, an
  optional exponent) whose value does not round to zero. A literal denotes
  \<open>m * 10 ^ k\<close> for its digits \<open>m\<close> and its decimal exponent \<open>k\<close>, and the nearest double
  is zero exactly when the value is at most \<open>2 ^ -1075\<close>. Every other text is not a
  number or not below zero.
\<close>

definition isStrWhiteSpaceChar :: "char \<Rightarrow> bool" where
  "isStrWhiteSpaceChar c = ((of_char c :: nat) \<in> set [9, 10, 11, 12, 13, 32, 160])"

definition trimString :: "string \<Rightarrow> string" where
  "trimString s = rev (dropWhile isStrWhiteSpaceChar (rev (dropWhile isStrWhiteSpaceChar s)))"

text \<open>Decimal digits and the value of a sequence of them.\<close>

definition isDigit :: "char \<Rightarrow> bool" where
  "isDigit c = (let n = (of_char c :: nat) in 48 \<le> n \<and> n \<le> 57)"

definition allDigits :: "string \<Rightarrow> bool" where
  "allDigits s = (s \<noteq> [] \<and> list_all isDigit s)"

definition digitsValue :: "string \<Rightarrow> nat" where
  "digitsValue s = foldl (\<lambda>acc c. 10 * acc + (of_char c - 48)) 0 s"

text \<open>
  The exponent part after the digits: nothing (exponent 0), or \<open>e\<close> or \<open>E\<close>, an optional
  sign and digits.
\<close>

definition exponentPart :: "string \<Rightarrow> int option" where
  "exponentPart s =
     (case s of
        [] \<Rightarrow> Some 0
      | c # cs \<Rightarrow>
          if c = CHR ''e'' \<or> c = CHR ''E'' then
            (case cs of
               [] \<Rightarrow> None
             | d # ds \<Rightarrow>
                 if d = CHR ''+'' then (if allDigits ds then Some (int (digitsValue ds)) else None)
                 else if d = CHR ''-'' then (if allDigits ds then Some (- int (digitsValue ds)) else None)
                 else if allDigits cs then Some (int (digitsValue cs)) else None)
          else None)"

text \<open>
  An unsigned decimal literal: digits with an optional point, fraction and exponent, or a
  point followed by digits and an optional exponent. The result is the number that all
  the digits denote and the decimal exponent.
\<close>

definition strUnsignedDecimalLiteral :: "string \<Rightarrow> (nat \<times> int) option" where
  "strUnsignedDecimalLiteral s =
     (let ip = takeWhile isDigit s; r = dropWhile isDigit s in
      case r of
        [] \<Rightarrow> if ip = [] then None else Some (digitsValue ip, 0)
      | c # cs \<Rightarrow>
          if c = CHR ''.'' then
            (let fp = takeWhile isDigit cs; r2 = dropWhile isDigit cs in
             if ip = [] \<and> fp = [] then None
             else (case exponentPart r2 of
                     None \<Rightarrow> None
                   | Some e \<Rightarrow> Some (digitsValue (ip @ fp), e - int (length fp))))
          else if ip = [] then None
          else (case exponentPart r of
                  None \<Rightarrow> None
                | Some e \<Rightarrow> Some (digitsValue ip, e)))"

definition roundsToZero :: "nat \<Rightarrow> int \<Rightarrow> bool" where
  "roundsToZero m k =
     (if m = 0 then True
      else if 0 \<le> k then False
      else m * 2 ^ 1075 \<le> 10 ^ nat (- k))"

definition numberBelowZero :: "string \<Rightarrow> bool" where
  "numberBelowZero v =
     (case trimString v of
        [] \<Rightarrow> False
      | c # u \<Rightarrow>
          if c = CHR ''-'' then
            (if u = ''Infinity'' then True
             else (case strUnsignedDecimalLiteral u of
                     None \<Rightarrow> False
                   | Some (m, k) \<Rightarrow> \<not> roundsToZero m k))
          else False)"

text \<open>
  The three rules, each giving its message when it rejects. The pattern
  \<open>/^[0-9]+$/\<close> matches the non-empty texts of digits only.
\<close>

definition requiredRule :: "string \<Rightarrow> string option" where
  "requiredRule v = (if v = [] then Some ''Stock is required'' else None)"

definition minRule :: "string \<Rightarrow> string option" where
  "minRule v = (if v \<noteq> [] \<and> numberBelowZero v then Some ''Stock must be 0 or more'' else None)"

definition patternRule :: "string \<Rightarrow> string option" where
  "patternRule v = (if v \<noteq> [] \<and> \<not> allDigits v then Some ''Only integers allowed'' else None)"

definition validateField :: "string \<Rightarrow> string option" where
  "validateField v =
     (case requiredRule v of
        Some message \<Rightarrow> Some message
      | None \<Rightarrow>
          (case minRule v of
             Some message \<Rightarrow> Some message
           | None \<Rightarrow> patternRule v))"

text \<open>
  The data of the form holds the text of the input (the field is registered without a
  conversion to a number). \<open>handleSubmit(submit)\<close> calls \<open>submit\<close> with the data when no
  rule rejects, and \<open>submit\<close> calls the \<open>onSave\<close> of the modal with \<open>data.stock\<close>; the
  component passes \<open>(newStock) => updateStock(modalProduct.id, newStock)\<close> as \<open>onSave\<close>.
  The field \<open>stock\<close> of the data is written \<open>stock'\<close>, since \<open>stock\<close> is the field of a
  product.
\<close>

record StockFormData =
  stock' :: string

definition submit :: "(string \<Rightarrow> 'a) \<Rightarrow> StockFormData \<Rightarrow> 'a" where
  "submit onSave data = onSave (stock' data)"

definition handleSubmit :: "(StockFormData \<Rightarrow> 'a) \<Rightarrow> string \<Rightarrow> string + 'a" where
  "handleSubmit onValid v =
     (case validateField v of
        Some message \<Rightarrow> Inl message
      | None \<Rightarrow> Inr (onValid \<lparr>stock' = v\<rparr>))"

section \<open>Product service\<close>

text \<open>
  The outcome of an \<open>async\<close> function, and the two functions of the service. The static
  collection \<open>products\<close> of the module, read from a JSON file, is their first argument,
  and they give it back beside their outcome.
\<close>

datatype 'a Promise = Fulfilled 'a | Rejected string

definition getProducts :: "Product list \<Rightarrow> Product list Promise \<times> Product list" where
  "getProducts ps = (Fulfilled ps, ps)"

definition getProductById :: "Product list \<Rightarrow> string \<Rightarrow> Product option Promise \<times> Product list" where
  "getProductById ps i = (Fulfilled (find (\<lambda>product. id' product = i) ps), ps)"

section \<open>Example states\<close>

definition widget :: Product where
  "widget = \<lparr>id' = ''1'', name = ''Widget'', sku = ''W1'', category = ''Tools'', stock = 3\<rparr>"

definition gadget :: Product where
  "gadget = \<lparr>id' = ''2'', name = ''Gadget'', sku = ''G1'', category = ''Toys'', stock = 12\<rparr>"

definition cafe :: Product where
  "cafe = \<lparr>id' = ''3'', name = ''CAF'' @ [CHR 0xC9], sku = ''C1'', category = ''Food'', stock = 40\<rparr>"

definition initialHome :: "Product list \<Rightarrow> Home" where
  "initialHome ps =
     \<lparr>products = ps, loading = False, error = None, currentPage = 1, modalProduct = None,
      successMessage = None, searchParams = [], now = 0, timers = []\<rparr>"

text \<open>
  Two edits in a row: the stock of the first product is set to 20 at time 0, and the
  stock of the second product is set to 7 at time 2000, before the timer of the first
  edit is due.
\<close>

definition firstEdit :: Home where
  "firstEdit = updateStock ''1'' 20 (openModal widget (initialHome [widget, gadget]))"

definition secondEdit :: Home where
  "secondEdit = updateStock ''2'' 7 (openModal gadget (advanceTo 2000 firstEdit))"

section \<open>Search filter\<close>










text \<open>The definitions that a concrete search unfolds to.\<close>

lemmas search_eval = filteredProducts_def searchQuery_def matchesSearch_def toLowerCase_def
  toLowerChar_def startsWith_def widget_def gadget_def cafe_def initialHome_def
  handleSearch_def char_of_def bit_Suc_0_iff




section \<open>Page slice\<close>

lemma slice_window:
  assumes "0 \<le> a" and "0 \<le> n"
  shows "slice xs a (a + n) = take (nat n) (drop (nat a) xs)"
proof (cases "a \<le> int (length xs)")
  case True
  then have len: "length (drop (nat a) xs) = nat (int (length xs) - a)"
    using assms by simp
  have "slice xs a (a + n) = take (nat (min (a + n) (int (length xs)) - a)) (drop (nat a) xs)"
    using True assms by (simp add: slice_def Let_def min_def)
  also have "\<dots> = take (nat n) (drop (nat a) xs)"
  proof (cases "a + n \<le> int (length xs)")
    case True
    then show ?thesis by (simp add: min_def)
  next
    case False
    then have "min (a + n) (int (length xs)) - a = int (length xs) - a" by (simp add: min_def)
    moreover have "length (drop (nat a) xs) \<le> nat n" using False len by linarith
    ultimately show ?thesis using len by simp
  qed
  finally show ?thesis .
next
  case False
  then have "length xs \<le> nat a" by linarith
  then have "drop (nat a) xs = []" by simp
  moreover have "slice xs a (a + n) = []"
    using False assms by (simp add: slice_def Let_def min_def)
  ultimately show ?thesis by simp
qed

lemma currentProducts_take_drop:
  assumes "1 \<le> currentPage h"
  shows "currentProducts h = take 20 (drop (nat ((currentPage h - 1) * 20)) (filteredProducts h))"
proof -
  have "currentPage h * 20 = (currentPage h - 1) * 20 + 20" by simp
  then have "currentProducts h =
      slice (filteredProducts h) ((currentPage h - 1) * 20) ((currentPage h - 1) * 20 + 20)"
    by (simp only: currentProducts_def productsPerPage_def)
  also have "\<dots> = take (nat 20) (drop (nat ((currentPage h - 1) * 20)) (filteredProducts h))"
    using assms by (intro slice_window) simp_all
  finally show ?thesis by simp
qed

text \<open>
  C2. For every filtered list and every current page \<open>p \<ge> 1\<close>, the page slice is the window
  of the filtered list that starts at index \<open>(p - 1) * 20\<close> and has at most 20 items; on an
  empty filtered list the slice is empty (the slice is a total function: nothing fails).
\<close>

theorem currentProducts_window:
  assumes "1 \<le> currentPage h"
  shows "currentProducts h = take 20 (drop (nat ((currentPage h - 1) * 20)) (filteredProducts h))
         \<and> length (currentProducts h) \<le> 20
         \<and> (filteredProducts h = [] \<longrightarrow> currentProducts h = [])"
  by (simp add: currentProducts_take_drop [OF assms])

theorem currentProducts_window_witness:
  "1 \<le> currentPage (initialHome [widget, gadget])
   \<and> currentProducts (initialHome [widget, gadget]) = [widget, gadget]
   \<and> 1 \<le> currentPage (handleSearch ''zzz'' (initialHome [widget, gadget]))
   \<and> filteredProducts (handleSearch ''zzz'' (initialHome [widget, gadget])) = []
   \<and> currentProducts (handleSearch ''zzz'' (initialHome [widget, gadget])) = []"
proof -
  have p1: "1 \<le> currentPage (initialHome [widget, gadget])"
    by (simp add: initialHome_def)
  have p2: "1 \<le> currentPage (handleSearch ''zzz'' (initialHome [widget, gadget]))"
    by (simp add: handleSearch_def)
  have f1: "filteredProducts (initialHome [widget, gadget]) = [widget, gadget]"
    by (simp add: search_eval)
  have f2: "filteredProducts (handleSearch ''zzz'' (initialHome [widget, gadget])) = []"
    by (simp add: search_eval)
  have c1: "currentPage (initialHome [widget, gadget]) = 1"
    by (simp add: initialHome_def)
  show ?thesis
    using currentProducts_window [OF p1] currentProducts_window [OF p2] p1 p2
    by (simp add: f1 f2 c1)
qed

section \<open>Page count\<close>

lemma mathCeilDiv_ceiling: "mathCeilDiv a b = \<lceil>real_of_int a / real_of_int b\<rceil>"
proof -
  have "\<lceil>real_of_int a / real_of_int b\<rceil> = - \<lfloor>real_of_int (- a) / real_of_int b\<rfloor>"
    by (simp add: ceiling_def)
  also have "\<dots> = - ((- a) div b)"
    by (simp only: floor_divide_of_int_eq)
  finally show ?thesis by (simp add: mathCeilDiv_def)
qed

lemma totalPages_ceiling: "totalPages h = \<lceil>real (length (filteredProducts h)) / 20\<rceil>"
  by (simp add: totalPages_def mathCeilDiv_ceiling productsPerPage_def)

lemma totalPages_nonneg: "0 \<le> totalPages h"
  by (simp add: totalPages_def mathCeilDiv_def productsPerPage_def) 

lemma totalPages_zero_iff: "totalPages h = 0 \<longleftrightarrow> filteredProducts h = []"
proof -
  have "(- int n) div 20 = 0 \<longleftrightarrow> n = 0" for n :: nat
    by presburger
  then show ?thesis
    by (simp add: totalPages_def mathCeilDiv_def productsPerPage_def)
qed

lemma getPageButtons_total: "getPageButtons h = getPageButtonsOf (max 1 (totalPages h)) (currentPage h)"
  using totalPages_nonneg [of h] by (simp add: getPageButtons_def getPageButtonsOf_def max_def)

text \<open>
  C3. The total page count is the ceiling of the filtered count over 20, and the page
  buttons take it with a minimum of 1. The Next button compares the current page with
  the count itself: after a search that matches no product the count is 0, the buttons
  show the single page 1, the current page is 1, and Next is not disabled; it leads to
  page 2.
\<close>

theorem nextDisabled_no_results:
  "filteredProducts (handleSearch ''zzz'' (initialHome [widget, gadget])) = []
   \<and> totalPages (handleSearch ''zzz'' (initialHome [widget, gadget])) = 0
   \<and> currentPage (handleSearch ''zzz'' (initialHome [widget, gadget])) = 1
   \<and> getPageButtons (handleSearch ''zzz'' (initialHome [widget, gadget])) = [Num 1]
   \<and> \<not> nextDisabled (handleSearch ''zzz'' (initialHome [widget, gadget]))
   \<and> currentPage (paginate (currentPage (handleSearch ''zzz'' (initialHome [widget, gadget])) + 1)
         (handleSearch ''zzz'' (initialHome [widget, gadget]))) = 2"
proof -
  have f: "filteredProducts (handleSearch ''zzz'' (initialHome [widget, gadget])) = []"
    by (simp add: search_eval)
  have c: "currentPage (handleSearch ''zzz'' (initialHome [widget, gadget])) = 1"
    by (simp add: handleSearch_def)
  have t: "totalPages (handleSearch ''zzz'' (initialHome [widget, gadget])) = 0"
    by (simp add: totalPages_def f mathCeilDiv_def)
  have b: "getPageButtons (handleSearch ''zzz'' (initialHome [widget, gadget])) = [Num 1]"
    by (simp add: getPageButtons_def getPageButtonsOf_def t c)
  have n: "\<not> nextDisabled (handleSearch ''zzz'' (initialHome [widget, gadget]))"
    by (simp add: nextDisabled_def t c)
  have p: "currentPage (paginate (currentPage (handleSearch ''zzz'' (initialHome [widget, gadget])) + 1)
         (handleSearch ''zzz'' (initialHome [widget, gadget]))) = 2"
    by (simp add: paginate_def c)
  from f t c b n p show ?thesis by blast
qed

section \<open>Page buttons\<close>

lemma pushPages_eq: "pushPages i hi pages = pages @ map Num [i..hi]"
proof (induction i hi pages rule: pushPages.induct)
  case (1 i hi pages)
  show ?case
  proof (cases "i \<le> hi")
    case True
    then have "pushPages i hi pages = pushPages (i + 1) hi (pages @ [Num i])"
      by (subst pushPages.simps) simp
    also have "\<dots> = (pages @ [Num i]) @ map Num [i + 1..hi]"
      using "1.IH" True by simp
    also have "\<dots> = pages @ map Num [i..hi]"
      using True by (simp add: upto_rec1 [of i hi])
    finally show ?thesis .
  next
    case False
    then show ?thesis by (subst pushPages.simps) simp
  qed
qed

lemma getPageButtonsOf_eq:
  assumes "1 \<le> t"
  shows "getPageButtonsOf t c =
     (if t \<le> 5 then map Num [1..t]
      else [Num 1] @ (if c > 3 then [Str ''...''] else [])
           @ map Num [max 2 (c - 1) .. min (t - 1) (c + 1)]
           @ (if c < t - 2 then [Str ''...''] else []) @ [Num t])"
proof -
  from assms have t0: "(t = 0) = False" by simp
  show ?thesis
  proof (cases "t \<le> 5")
    case True
    then show ?thesis
      by (simp only: getPageButtonsOf_def Let_def pushPages_eq t0 if_False if_True append_Nil)
  next
    case False
    then show ?thesis
      by (cases "c > 3"; cases "c < t - 2";
          simp only: getPageButtonsOf_def Let_def pushPages_eq t0 if_False if_True
            append_Nil append_Nil2 append_assoc)
  qed
qed


lemma count_list_Num: "count_list (map Num xs) (Str s) = 0"
  by (induction xs) simp_all

lemma getPageButtonsOf_sides:
  assumes "1 \<le> t" and "1 \<le> c" and "c \<le> t"
  shows "\<exists>pre post. getPageButtonsOf t c = pre @ [Num c] @ post
           \<and> count_list pre (Str ''...'') \<le> 1 \<and> count_list post (Str ''...'') \<le> 1"
proof (cases "t \<le> 5")
  case True
  have "[1..t] = [1..c - 1] @ c # [c + 1..t]"
    using assms by (intro upto_split3) simp_all
  then have "getPageButtonsOf t c = map Num [1..c - 1] @ [Num c] @ map Num [c + 1..t]"
    using True assms by (simp only: getPageButtonsOf_eq if_True map_append list.map append.simps)
  moreover have "count_list (map Num [1..c - 1]) (Str ''...'') \<le> 1"
    and "count_list (map Num [c + 1..t]) (Str ''...'') \<le> 1"
    by (simp_all only: count_list_Num)
  ultimately show ?thesis by blast
next
  case False
  define E1 where "E1 = (if c > 3 then [Str ''...''] else [])"
  define E2 where "E2 = (if c < t - 2 then [Str ''...''] else [])"
  define lo where "lo = max 2 (c - 1)"
  define hi where "hi = min (t - 1) (c + 1)"
  have b: "getPageButtonsOf t c = [Num 1] @ E1 @ map Num [lo..hi] @ E2 @ [Num t]"
    using False assms(1) by (simp only: getPageButtonsOf_eq if_False E1_def E2_def lo_def hi_def)
  have e1: "count_list E1 (Str ''...'') \<le> 1" by (simp add: E1_def)
  have e2: "count_list E2 (Str ''...'') \<le> 1" by (simp add: E2_def)
  consider "c = 1" | "c = t" | "1 < c" "c < t" using assms by linarith
  then show ?thesis
  proof cases
    case 1
    then have "E1 = []" by (simp add: E1_def)
    with b 1 have "getPageButtonsOf t c = [] @ [Num c] @ (map Num [lo..hi] @ E2 @ [Num t])"
      by simp
    moreover have "count_list (map Num [lo..hi] @ E2 @ [Num t]) (Str ''...'') \<le> 1"
      using e2 by (simp add: count_list_Num)
    moreover have "count_list [] (Str ''...'') \<le> 1" by simp
    ultimately show ?thesis by blast
  next
    case 2
    then have "E2 = []" by (simp add: E2_def)
    with b 2 have "getPageButtonsOf t c = ([Num 1] @ E1 @ map Num [lo..hi]) @ [Num c] @ []"
      by simp
    moreover have "count_list ([Num 1] @ E1 @ map Num [lo..hi]) (Str ''...'') \<le> 1"
      using e1 by (simp add: count_list_Num)
    moreover have "count_list [] (Str ''...'') \<le> 1" by simp
    ultimately show ?thesis by blast
  next
    case 3
    then have "lo \<le> c" and "c \<le> hi" by (simp_all add: lo_def hi_def)
    then have "[lo..hi] = [lo..c - 1] @ c # [c + 1..hi]" by (rule upto_split3)
    then have "map Num [lo..hi] = map Num [lo..c - 1] @ [Num c] @ map Num [c + 1..hi]"
      by simp
    with b have "getPageButtonsOf t c =
        ([Num 1] @ E1 @ map Num [lo..c - 1]) @ [Num c] @ (map Num [c + 1..hi] @ E2 @ [Num t])"
      by simp
    moreover have "count_list ([Num 1] @ E1 @ map Num [lo..c - 1]) (Str ''...'') \<le> 1"
      using e1 by (simp add: count_list_Num)
    moreover have "count_list (map Num [c + 1..hi] @ E2 @ [Num t]) (Str ''...'') \<le> 1"
      using e2 by (simp add: count_list_Num)
    ultimately show ?thesis by blast
  qed
qed

lemma getPageButtonsOf_ends:
  assumes "1 \<le> t"
  shows "hd (getPageButtonsOf t c) = Num 1 \<and> last (getPageButtonsOf t c) = Num t"
proof (cases "t \<le> 5")
  case True
  have h1: "[1..t] = 1 # [1 + 1..t]" using assms by (rule upto_rec1)
  have h2: "[1..t] = [1..t - 1] @ [t]" using assms by (rule upto_rec2)
  have "hd (map Num [1..t]) = Num 1"
    by (subst h1) (simp only: list.map list.sel)
  moreover have "last (map Num [1..t]) = Num t"
    by (subst h2) (simp only: map_append list.map last_snoc)
  ultimately show ?thesis using True assms by (simp only: getPageButtonsOf_eq if_True)
next
  case False
  then show ?thesis using assms by (simp only: getPageButtonsOf_eq if_False) simp
qed

text \<open>
  C5. For every total page count \<open>t \<ge> 1\<close> and every current page \<open>c\<close> from 1 to \<open>t\<close>, the
  buttons are the pages 1 to \<open>t\<close> when \<open>t \<le> 5\<close>; otherwise page 1, an ellipsis exactly when
  \<open>c > 3\<close>, the pages from \<open>max 2 (c - 1)\<close> to \<open>min (t - 1) (c + 1)\<close>, an ellipsis exactly
  when \<open>c < t - 2\<close>, and page \<open>t\<close>. The first button is page 1, the last is page \<open>t\<close>, and at
  most one ellipsis stands on each side of the current page. For \<open>t = 3\<close> the buttons are
  1, 2, 3; for \<open>t = 10\<close> and \<open>c = 1\<close> they are 1, 2, ellipsis, 10; for \<open>t = 10\<close> and \<open>c = 5\<close>
  they are 1, ellipsis, 4, 5, 6, ellipsis, 10.
\<close>

theorem getPageButtonsOf_spec:
  assumes "1 \<le> t" and "1 \<le> c" and "c \<le> t"
  shows "getPageButtonsOf t c =
           (if t \<le> 5 then map Num [1..t]
            else [Num 1] @ (if c > 3 then [Str ''...''] else [])
                 @ map Num [max 2 (c - 1) .. min (t - 1) (c + 1)]
                 @ (if c < t - 2 then [Str ''...''] else []) @ [Num t])
         \<and> hd (getPageButtonsOf t c) = Num 1
         \<and> last (getPageButtonsOf t c) = Num t
         \<and> (\<exists>pre post. getPageButtonsOf t c = pre @ [Num c] @ post
               \<and> count_list pre (Str ''...'') \<le> 1 \<and> count_list post (Str ''...'') \<le> 1)
         \<and> getPageButtonsOf 3 c' = [Num 1, Num 2, Num 3]
         \<and> getPageButtonsOf 10 1 = [Num 1, Num 2, Str ''...'', Num 10]
         \<and> getPageButtonsOf 10 5 = [Num 1, Str ''...'', Num 4, Num 5, Num 6, Str ''...'', Num 10]"
proof -
  have x3: "getPageButtonsOf 3 c' = [Num 1, Num 2, Num 3]"
    by (simp add: getPageButtonsOf_eq upto_rec1 [of 1 3])
  have x1: "getPageButtonsOf 10 1 = [Num 1, Num 2, Str ''...'', Num 10]"
    by (simp add: getPageButtonsOf_eq)
  have x5: "getPageButtonsOf 10 5 = [Num 1, Str ''...'', Num 4, Num 5, Num 6, Str ''...'', Num 10]"
    by (simp add: getPageButtonsOf_eq)
  from getPageButtonsOf_eq [OF assms(1), of c] getPageButtonsOf_ends [OF assms(1), of c]
    getPageButtonsOf_sides [OF assms] x3 x1 x5
  show ?thesis by blast
qed

theorem getPageButtonsOf_spec_witness:
  "(1::int) \<le> 7 \<and> (1::int) \<le> 4 \<and> (4::int) \<le> 7
   \<and> getPageButtonsOf 7 4 = [Num 1, Str ''...'', Num 3, Num 4, Num 5, Str ''...'', Num 7]
   \<and> hd (getPageButtonsOf 7 4) = Num 1 \<and> last (getPageButtonsOf 7 4) = Num 7"
proof -
  have h: "(1::int) \<le> 7" "(1::int) \<le> 4" "(4::int) \<le> 7" by simp_all
  have "getPageButtonsOf 7 4 =
           (if (7::int) \<le> 5 then map Num [1..7]
            else [Num 1] @ (if (4::int) > 3 then [Str ''...''] else [])
                 @ map Num [max 2 (4 - 1) .. min (7 - 1) (4 + 1)]
                 @ (if (4::int) < 7 - 2 then [Str ''...''] else []) @ [Num 7])"
    and e: "hd (getPageButtonsOf 7 4) = Num 1" "last (getPageButtonsOf 7 4) = Num 7"
    using getPageButtonsOf_spec [OF h, of 0] by blast+
  then have "getPageButtonsOf 7 4 = [Num 1, Str ''...'', Num 3, Num 4, Num 5, Str ''...'', Num 7]"
    by simp
  with h e show ?thesis by blast
qed


section \<open>Stock update\<close>

lemma products_updateStock:
  "products (updateStock pid v h) =
     map (\<lambda>p. if id' p = pid then p\<lparr>stock := v\<rparr> else p) (products h)"
  by (simp add: updateStock_def Let_def setTimeout_def closeModal_def)

lemma successMessage_updateStock:
  "successMessage (updateStock pid v h) = Some (stockMessage (productNameOf pid (products h)) v)"
  by (simp add: updateStock_def Let_def setTimeout_def closeModal_def)

lemma timers_updateStock: "timers (updateStock pid v h) = timers h @ [now h + 3000]"
  by (simp add: updateStock_def Let_def setTimeout_def closeModal_def)

lemma now_updateStock: "now (updateStock pid v h) = now h"
  by (simp add: updateStock_def Let_def setTimeout_def closeModal_def)

lemma modalProduct_updateStock: "modalProduct (updateStock pid v h) = None"
  by (simp add: updateStock_def Let_def setTimeout_def closeModal_def)

lemma map_stock_single:
  assumes "distinct (map id' ps)" and "i < length ps"
  shows "map (\<lambda>p. if id' p = id' (ps ! i) then p\<lparr>stock := v\<rparr> else p) ps
           = ps[i := (ps ! i)\<lparr>stock := v\<rparr>]"
proof (rule nth_equalityI)
  show "length (map (\<lambda>p. if id' p = id' (ps ! i) then p\<lparr>stock := v\<rparr> else p) ps)
          = length (ps[i := (ps ! i)\<lparr>stock := v\<rparr>])" by simp
next
  fix j assume "j < length (map (\<lambda>p. if id' p = id' (ps ! i) then p\<lparr>stock := v\<rparr> else p) ps)"
  then have j: "j < length ps" by simp
  show "map (\<lambda>p. if id' p = id' (ps ! i) then p\<lparr>stock := v\<rparr> else p) ps ! j
          = ps[i := (ps ! i)\<lparr>stock := v\<rparr>] ! j"
  proof (cases "j = i")
    case True
    then show ?thesis using j by simp
  next
    case False
    have "map id' ps ! j \<noteq> map id' ps ! i"
      using assms j False by (simp add: nth_eq_iff_index_eq del: nth_map)
    then have "id' (ps ! j) \<noteq> id' (ps ! i)" using assms(2) j by simp
    then show ?thesis using j False by simp
  qed
qed

text \<open>
  C6. For every collection and every product id present in it, the stock update keeps
  the length and the order of the collection, keeps the id, name, sku and category of
  every product, sets the stock of the product with that id to the new value and leaves
  every product with another id as it was; when ids are unique the new collection is
  the old one with exactly one position replaced.
\<close>

theorem updateStock_frame:
  assumes "pid \<in> id' ` set (products h)"
  shows "length (products (updateStock pid v h)) = length (products h)
         \<and> map id' (products (updateStock pid v h)) = map id' (products h)
         \<and> (\<forall>i < length (products h).
               id' (products (updateStock pid v h) ! i) = id' (products h ! i)
             \<and> name (products (updateStock pid v h) ! i) = name (products h ! i)
             \<and> sku (products (updateStock pid v h) ! i) = sku (products h ! i)
             \<and> category (products (updateStock pid v h) ! i) = category (products h ! i)
             \<and> (id' (products h ! i) = pid \<longrightarrow> stock (products (updateStock pid v h) ! i) = v)
             \<and> (id' (products h ! i) \<noteq> pid \<longrightarrow>
                   products (updateStock pid v h) ! i = products h ! i))
         \<and> (distinct (map id' (products h)) \<longrightarrow>
               (\<exists>i < length (products h). id' (products h ! i) = pid
                  \<and> products (updateStock pid v h)
                      = (products h)[i := (products h ! i)\<lparr>stock := v\<rparr>]))"
proof (intro conjI)
  show "length (products (updateStock pid v h)) = length (products h)"
    by (simp add: products_updateStock)
  show "map id' (products (updateStock pid v h)) = map id' (products h)"
    by (simp add: products_updateStock)
  show "\<forall>i < length (products h).
               id' (products (updateStock pid v h) ! i) = id' (products h ! i)
             \<and> name (products (updateStock pid v h) ! i) = name (products h ! i)
             \<and> sku (products (updateStock pid v h) ! i) = sku (products h ! i)
             \<and> category (products (updateStock pid v h) ! i) = category (products h ! i)
             \<and> (id' (products h ! i) = pid \<longrightarrow> stock (products (updateStock pid v h) ! i) = v)
             \<and> (id' (products h ! i) \<noteq> pid \<longrightarrow>
                   products (updateStock pid v h) ! i = products h ! i)"
    by (simp add: products_updateStock)
  show "distinct (map id' (products h)) \<longrightarrow>
               (\<exists>i < length (products h). id' (products h ! i) = pid
                  \<and> products (updateStock pid v h)
                      = (products h)[i := (products h ! i)\<lparr>stock := v\<rparr>])"
  proof
    assume d: "distinct (map id' (products h))"
    from assms obtain i where i: "i < length (products h)" "id' (products h ! i) = pid"
      by (auto simp: in_set_conv_nth)
    from map_stock_single [OF d i(1), of v] i(2)
    have "products (updateStock pid v h) = (products h)[i := (products h ! i)\<lparr>stock := v\<rparr>]"
      by (simp add: products_updateStock)
    with i show "\<exists>i < length (products h). id' (products h ! i) = pid
                  \<and> products (updateStock pid v h)
                      = (products h)[i := (products h ! i)\<lparr>stock := v\<rparr>]" by blast
  qed
qed

lemma productNameOf_unknown: "pid \<notin> id' ` set ps \<Longrightarrow> productNameOf pid ps = ''Product''"
proof -
  assume "pid \<notin> id' ` set ps"
  then have "find (\<lambda>p. id' p = pid) ps = None" by (auto simp: find_None_iff)
  then show ?thesis by (simp add: productNameOf_def)
qed

lemma advanceTo_due:
  "now h \<le> t \<Longrightarrow> successMessage (advanceTo t h)
      = (if \<exists>d \<in> set (timers h). d \<le> t then None else successMessage h)"
  by (simp add: advanceTo_def list_ex_iff)

text \<open>
  C10. The stock update with an id that no product of the collection has leaves the
  collection as it was, sets the success message \<open>Stock for "Product" updated to v\<close>
  with the literal name \<open>Product\<close>, schedules the clearing of the message 3000 ms later
  (and the message is cleared by then), and closes the modal.
\<close>

theorem updateStock_unknown_id:
  assumes "pid \<notin> id' ` set (products h)"
  shows "products (updateStock pid v h) = products h
         \<and> successMessage (updateStock pid v h)
             = Some (''Stock for '' @ [CHR 0x22] @ ''Product'' @ [CHR 0x22] @ '' updated to ''
                       @ numberToString v)
         \<and> timers (updateStock pid v h) = timers h @ [now h + 3000]
         \<and> successMessage (advanceTo (now h + 3000) (updateStock pid v h)) = None
         \<and> modalProduct (updateStock pid v h) = None"
proof (intro conjI)
  have "map (\<lambda>p. if id' p = pid then p\<lparr>stock := v\<rparr> else p) (products h) = map (\<lambda>p. p) (products h)"
    using assms by (intro map_cong) auto
  then show "products (updateStock pid v h) = products h"
    by (simp add: products_updateStock)
  show "successMessage (updateStock pid v h)
             = Some (''Stock for '' @ [CHR 0x22] @ ''Product'' @ [CHR 0x22] @ '' updated to ''
                       @ numberToString v)"
    using productNameOf_unknown [OF assms]
    by (simp add: successMessage_updateStock stockMessage_def)
  show "timers (updateStock pid v h) = timers h @ [now h + 3000]"
    by (rule timers_updateStock)
  show "successMessage (advanceTo (now h + 3000) (updateStock pid v h)) = None"
    by (simp add: advanceTo_due now_updateStock timers_updateStock)
  show "modalProduct (updateStock pid v h) = None"
    by (rule modalProduct_updateStock)
qed


lemmas stock_eval = products_updateStock successMessage_updateStock timers_updateStock
  modalProduct_updateStock openModal_def initialHome_def widget_def gadget_def

theorem updateStock_frame_witness:
  "''1'' \<in> id' ` set (products (openModal widget (initialHome [widget, gadget])))
   \<and> distinct (map id' (products (openModal widget (initialHome [widget, gadget]))))
   \<and> length (products (updateStock ''1'' 15 (openModal widget (initialHome [widget, gadget])))) = 2
   \<and> products (updateStock ''1'' 15 (openModal widget (initialHome [widget, gadget])))
       = [widget\<lparr>stock := 15\<rparr>, gadget]"
proof -
  have a: "''1'' \<in> id' ` set (products (openModal widget (initialHome [widget, gadget])))"
    by (simp add: stock_eval)
  have d: "distinct (map id' (products (openModal widget (initialHome [widget, gadget]))))"
    by (simp add: stock_eval)
  have l: "length (products (openModal widget (initialHome [widget, gadget]))) = 2"
    by (simp add: stock_eval)
  have "length (products (updateStock ''1'' 15 (openModal widget (initialHome [widget, gadget]))))
          = length (products (openModal widget (initialHome [widget, gadget])))"
    using updateStock_frame [OF a, of 15] by blast
  then have n: "length (products (updateStock ''1'' 15 (openModal widget (initialHome [widget, gadget])))) = 2"
    by (simp only: l)
  have e: "products (updateStock ''1'' 15 (openModal widget (initialHome [widget, gadget])))
             = [widget\<lparr>stock := 15\<rparr>, gadget]"
    by (simp add: stock_eval)
  from a d n e show ?thesis by blast
qed

theorem updateStock_unknown_id_witness:
  "''9'' \<notin> id' ` set (products (initialHome [widget, gadget]))
   \<and> products (updateStock ''9'' 5 (initialHome [widget, gadget])) = [widget, gadget]
   \<and> successMessage (updateStock ''9'' 5 (initialHome [widget, gadget]))
       = Some (''Stock for '' @ [CHR 0x22] @ ''Product'' @ [CHR 0x22] @ '' updated to 5'')
   \<and> timers (updateStock ''9'' 5 (initialHome [widget, gadget])) = [3000]
   \<and> modalProduct (updateStock ''9'' 5 (initialHome [widget, gadget])) = None"
proof -
  have a: "''9'' \<notin> id' ` set (products (initialHome [widget, gadget]))"
    by (simp add: stock_eval)
  have p: "products (initialHome [widget, gadget]) = [widget, gadget]"
    and t: "timers (initialHome [widget, gadget]) = []"
    and n: "now (initialHome [widget, gadget]) = 0"
    by (simp_all add: initialHome_def)
  have s: "numberToString 5 = ''5''"
    by (simp add: numberToString_def digitChar_def char_of_def bit_Suc_0_iff)
  show ?thesis
    using updateStock_unknown_id [OF a, of 5] a by (simp add: p t n s)
qed


section \<open>Search handler\<close>

lemma getPageButtons_first_page:
  assumes "currentPage h = 1"
  shows "Num (currentPage h) \<in> set (getPageButtons h)"
proof -
  have t: "1 \<le> max 1 (totalPages h)" by simp
  have b: "getPageButtons h = getPageButtonsOf (max 1 (totalPages h)) 1"
    using assms by (simp only: getPageButtons_total)
  have "getPageButtonsOf (max 1 (totalPages h)) 1 \<noteq> []"
    by (simp only: getPageButtonsOf_eq [OF t]) (simp add: upto_rec1 [of 1])
  moreover have "hd (getPageButtonsOf (max 1 (totalPages h)) 1) = Num 1"
    using getPageButtonsOf_ends [OF t] by blast
  ultimately have "Num 1 \<in> set (getPageButtonsOf (max 1 (totalPages h)) 1)"
    using hd_in_set by metis
  then show ?thesis using assms b by simp
qed

text \<open>
  C8. For every change of the search input, the search handler makes the URL query state
  hold the new text under the single key \<open>search\<close>, or no key at all when the text is
  empty, so that the search text read back is the new text; it sets the current page to
  1 and leaves the collection alone. Page 1 is one of the rendered page buttons and the
  page slice is the start of the new filtered list, so the page is in range.
\<close>

theorem handleSearch_spec:
  "searchParams (handleSearch v h) = (if v = [] then [] else [(''search'', v)])
   \<and> fst ` set (searchParams (handleSearch v h)) \<subseteq> {''search''}
   \<and> map_of (searchParams (handleSearch v h)) ''search'' = (if v = [] then None else Some v)
   \<and> searchQuery (handleSearch v h) = v
   \<and> currentPage (handleSearch v h) = 1
   \<and> products (handleSearch v h) = products h
   \<and> Num (currentPage (handleSearch v h)) \<in> set (getPageButtons (handleSearch v h))
   \<and> currentProducts (handleSearch v h) = take 20 (filteredProducts (handleSearch v h))"
proof -
  have c: "currentPage (handleSearch v h) = 1" by (simp add: handleSearch_def)
  then have "1 \<le> currentPage (handleSearch v h)" by simp
  from currentProducts_take_drop [OF this]
  have w: "currentProducts (handleSearch v h) = take 20 (filteredProducts (handleSearch v h))"
    by (simp add: c)
  have "searchParams (handleSearch v h) = (if v = [] then [] else [(''search'', v)])"
    and "fst ` set (searchParams (handleSearch v h)) \<subseteq> {''search''}"
    and "map_of (searchParams (handleSearch v h)) ''search'' = (if v = [] then None else Some v)"
    and "searchQuery (handleSearch v h) = v"
    and "products (handleSearch v h) = products h"
    by (auto simp add: handleSearch_def searchQuery_def)
  with c w getPageButtons_first_page [OF c] show ?thesis by blast
qed

theorem handleSearch_spec_witness:
  "searchParams (handleSearch ''wid'' (paginate 3 (initialHome [widget, gadget]))) = [(''search'', ''wid'')]
   \<and> currentPage (handleSearch ''wid'' (paginate 3 (initialHome [widget, gadget]))) = 1
   \<and> searchParams (handleSearch [] (handleSearch ''wid'' (initialHome [widget, gadget]))) = []
   \<and> searchQuery (handleSearch [] (handleSearch ''wid'' (initialHome [widget, gadget]))) = []"
  using handleSearch_spec [of "''wid''" "paginate 3 (initialHome [widget, gadget])"]
    handleSearch_spec [of "[]" "handleSearch ''wid'' (initialHome [widget, gadget])"]
  by simp

section \<open>Lookup by id\<close>

text \<open>
  C9. For every id, the lookup is fulfilled (it is never rejected) and gives the
  collection back as it was; when a product of the collection has the id, the result is
  a product of the collection with that id, and when none has, the result is
  \<open>undefined\<close>.
\<close>

theorem getProductById_spec:
  "snd (getProductById ps i) = ps
   \<and> (\<exists>r. fst (getProductById ps i) = Fulfilled r)
   \<and> (i \<in> id' ` set ps \<longrightarrow>
        (\<exists>p \<in> set ps. id' p = i \<and> fst (getProductById ps i) = Fulfilled (Some p)))
   \<and> (i \<notin> id' ` set ps \<longrightarrow> fst (getProductById ps i) = Fulfilled None)"
proof (intro conjI impI)
  show "snd (getProductById ps i) = ps" by (simp add: getProductById_def)
  show "\<exists>r. fst (getProductById ps i) = Fulfilled r" by (simp add: getProductById_def)
next
  assume "i \<in> id' ` set ps"
  then have "find (\<lambda>product. id' product = i) ps \<noteq> None"
    by (auto simp: find_None_iff)
  then obtain p where p: "find (\<lambda>product. id' product = i) ps = Some p" by blast
  then have "p \<in> set ps" and "id' p = i"
    by (auto simp: find_Some_iff)
  with p show "\<exists>p \<in> set ps. id' p = i \<and> fst (getProductById ps i) = Fulfilled (Some p)"
    by (simp add: getProductById_def)
next
  assume "i \<notin> id' ` set ps"
  then have "find (\<lambda>product. id' product = i) ps = None"
    by (auto simp: find_None_iff)
  then show "fst (getProductById ps i) = Fulfilled None"
    by (simp add: getProductById_def)
qed

theorem getProductById_spec_witness:
  "''2'' \<in> id' ` set [widget, gadget] \<and> getProductById [widget, gadget] ''2'' = (Fulfilled (Some gadget), [widget, gadget])
   \<and> ''7'' \<notin> id' ` set [widget, gadget] \<and> getProductById [widget, gadget] ''7'' = (Fulfilled None, [widget, gadget])"
proof -
  have a: "''2'' \<in> id' ` set [widget, gadget]" and b: "''7'' \<notin> id' ` set [widget, gadget]"
    by (simp_all add: widget_def gadget_def)
  have g: "\<forall>p \<in> set [widget, gadget]. id' p = ''2'' \<longrightarrow> p = gadget"
    by (simp add: widget_def gadget_def)
  from getProductById_spec [of "[widget, gadget]" "''2''"] a g
  have "fst (getProductById [widget, gadget] ''2'') = Fulfilled (Some gadget)"
    and "snd (getProductById [widget, gadget] ''2'') = [widget, gadget]" by blast+
  then have x: "getProductById [widget, gadget] ''2'' = (Fulfilled (Some gadget), [widget, gadget])"
    by (simp add: prod_eq_iff)
  from getProductById_spec [of "[widget, gadget]" "''7''"] b
  have "fst (getProductById [widget, gadget] ''7'') = Fulfilled None"
    and "snd (getProductById [widget, gadget] ''7'') = [widget, gadget]" by blast+
  then have y: "getProductById [widget, gadget] ''7'' = (Fulfilled None, [widget, gadget])"
    by (simp add: prod_eq_iff)
  from a b x y show ?thesis by blast
qed


section \<open>Validation of the stock form\<close>

lemmas number_eval = numberBelowZero_def trimString_def isStrWhiteSpaceChar_def
  strUnsignedDecimalLiteral_def exponentPart_def roundsToZero_def isDigit_def allDigits_def
  digitsValue_def

lemma digit_facts:
  assumes "c \<in> set ''0123456789''"
  shows "isDigit c" and "\<not> isStrWhiteSpaceChar c" and "c \<noteq> CHR ''-''"
  using assms by (auto simp: isDigit_def isStrWhiteSpaceChar_def)

lemma allDigits_digits:
  assumes "v \<noteq> []" and "set v \<subseteq> set ''0123456789''"
  shows "allDigits v"
proof -
  have "\<forall>c \<in> set v. isDigit c" using assms(2) digit_facts(1) by blast
  then show ?thesis using assms(1) by (simp add: allDigits_def list_all_iff)
qed

lemma dropWhile_hd: "xs \<noteq> [] \<Longrightarrow> \<not> P (hd xs) \<Longrightarrow> dropWhile P xs = xs"
  by (cases xs) simp_all

lemma trimString_digits:
  assumes "v \<noteq> []" and "set v \<subseteq> set ''0123456789''"
  shows "trimString v = v"
proof -
  have "hd v \<in> set v" and "last v \<in> set v" using assms(1) by simp_all
  then have h: "\<not> isStrWhiteSpaceChar (hd v)" and l: "\<not> isStrWhiteSpaceChar (last v)"
    using assms(2) digit_facts(2) by blast+
  have 1: "dropWhile isStrWhiteSpaceChar v = v"
    using assms(1) h by (rule dropWhile_hd)
  have "rev v \<noteq> []" and "hd (rev v) = last v" using assms(1) by (simp_all add: hd_rev)
  then have 2: "dropWhile isStrWhiteSpaceChar (rev v) = rev v"
    using l by (intro dropWhile_hd) simp_all
  show ?thesis by (simp add: trimString_def 1 2)
qed

lemma numberBelowZero_digits:
  assumes "v \<noteq> []" and "set v \<subseteq> set ''0123456789''"
  shows "\<not> numberBelowZero v"
proof -
  from assms(1) obtain c cs where v: "v = c # cs" by (cases v) auto
  with assms(2) have "c \<noteq> CHR ''-''" using digit_facts(3) by simp
  moreover have "numberBelowZero v =
      (case v of [] \<Rightarrow> False
       | c # u \<Rightarrow>
           if c = CHR ''-'' then
             (if u = ''Infinity'' then True
              else (case strUnsignedDecimalLiteral u of
                      None \<Rightarrow> False
                    | Some (m, k) \<Rightarrow> \<not> roundsToZero m k))
           else False)"
    by (simp only: numberBelowZero_def trimString_digits [OF assms])
  ultimately show ?thesis by (simp add: v)
qed

text \<open>
  C7. The stock form has three rules with three different messages. The text \<open>-1\<close> is
  rejected by the minimum rule and by the digits-only pattern rule, and the form, which
  stops at the first rule that rejects, shows the message of the minimum rule; the empty
  text is rejected by the required rule; the message of the pattern rule is shown for
  \<open>1.5\<close>. None of these texts is submitted. A non-empty text of digits only passes all
  three rules and is handed, as it is, to \<open>submit\<close> and by it to \<open>onSave\<close>.
\<close>

theorem stockForm_rules:
  assumes "v \<noteq> []" and "set v \<subseteq> set ''0123456789''"
  shows "minRule ''-1'' = Some ''Stock must be 0 or more''
         \<and> patternRule ''-1'' = Some ''Only integers allowed''
         \<and> requiredRule [] = Some ''Stock is required''
         \<and> distinct [''Stock is required'', ''Stock must be 0 or more'', ''Only integers allowed'']
         \<and> handleSubmit (submit onSave) ''-1'' = Inl ''Stock must be 0 or more''
         \<and> handleSubmit (submit onSave) [] = Inl ''Stock is required''
         \<and> handleSubmit (submit onSave) ''1.5'' = Inl ''Only integers allowed''
         \<and> requiredRule v = None \<and> minRule v = None \<and> patternRule v = None
         \<and> handleSubmit (submit onSave) v = Inr (onSave v)"
proof -
  have m: "minRule ''-1'' = Some ''Stock must be 0 or more''"
    by (simp add: minRule_def number_eval)
  have pt: "patternRule ''-1'' = Some ''Only integers allowed''"
    by (simp add: patternRule_def allDigits_def isDigit_def)
  have rq: "requiredRule [] = Some ''Stock is required''"
    by (simp add: requiredRule_def)
  have d: "distinct [''Stock is required'', ''Stock must be 0 or more'', ''Only integers allowed'']"
    by simp
  have s1: "handleSubmit (submit onSave) ''-1'' = Inl ''Stock must be 0 or more''"
    by (simp add: handleSubmit_def validateField_def m requiredRule_def)
  have s0: "handleSubmit (submit onSave) [] = Inl ''Stock is required''"
    by (simp add: handleSubmit_def validateField_def rq)
  have m2: "minRule ''1.5'' = None"
    by (simp add: minRule_def number_eval)
  have p2: "patternRule ''1.5'' = Some ''Only integers allowed''"
    by (simp add: patternRule_def allDigits_def isDigit_def)
  have s2: "handleSubmit (submit onSave) ''1.5'' = Inl ''Only integers allowed''"
    by (simp add: handleSubmit_def validateField_def m2 p2 requiredRule_def)
  have r: "requiredRule v = None" using assms(1) by (simp add: requiredRule_def)
  have n: "minRule v = None"
    using numberBelowZero_digits [OF assms] by (simp add: minRule_def)
  have q: "patternRule v = None"
    using allDigits_digits [OF assms] by (simp add: patternRule_def)
  have s: "handleSubmit (submit onSave) v = Inr (onSave v)"
    by (simp add: handleSubmit_def validateField_def r n q submit_def)
  from m pt rq d s1 s0 s2 r n q s show ?thesis by blast
qed

theorem stockForm_rules_witness:
  "''15'' \<noteq> [] \<and> set ''15'' \<subseteq> set ''0123456789''
   \<and> requiredRule ''15'' = None \<and> minRule ''15'' = None \<and> patternRule ''15'' = None
   \<and> handleSubmit (submit (\<lambda>newStock. ''saved '' @ newStock)) ''15'' = Inr ''saved 15''
   \<and> handleSubmit (submit (\<lambda>newStock. ''saved '' @ newStock)) ''007'' = Inr ''saved 007''"
proof -
  have a: "''15'' \<noteq> []" and b: "set ''15'' \<subseteq> set ''0123456789''" by simp_all
  have a': "''007'' \<noteq> []" and b': "set ''007'' \<subseteq> set ''0123456789''" by simp_all
  have r: "requiredRule ''15'' = None" and m: "minRule ''15'' = None" and p: "patternRule ''15'' = None"
    using stockForm_rules [OF a b] by blast+
  have "handleSubmit (submit (\<lambda>newStock. ''saved '' @ newStock)) ''15'' = Inr ((\<lambda>newStock. ''saved '' @ newStock) ''15'')"
    using stockForm_rules [OF a b, of "\<lambda>newStock. ''saved '' @ newStock"] by blast
  then have s: "handleSubmit (submit (\<lambda>newStock. ''saved '' @ newStock)) ''15'' = Inr ''saved 15''"
    by simp
  have "handleSubmit (submit (\<lambda>newStock. ''saved '' @ newStock)) ''007'' = Inr ((\<lambda>newStock. ''saved '' @ newStock) ''007'')"
    using stockForm_rules [OF a' b', of "\<lambda>newStock. ''saved '' @ newStock"] by blast
  then have s': "handleSubmit (submit (\<lambda>newStock. ''saved '' @ newStock)) ''007'' = Inr ''saved 007''"
    by simp
  from a b r m p s s' show ?thesis by blast
qed


section \<open>Success message\<close>

text \<open>
  C4, a run with a second edit before the first timer fires. The second edit sets its
  message at time 2000. The timer of the first edit is still
  pending and fires at time 3000: the message of the second edit is there at 2999 and
  gone at 3000, 1000 ms after it was set.
\<close>

theorem successMessage_stale_clear:
  "now secondEdit = 2000
   \<and> successMessage secondEdit = Some (stockMessage ''Gadget'' 7)
   \<and> successMessage (advanceTo 2999 secondEdit) = Some (stockMessage ''Gadget'' 7)
   \<and> successMessage (advanceTo 3000 secondEdit) = None"
proof -
  have n1: "now firstEdit = 0" and t1: "timers firstEdit = [3000]"
    by (simp_all add: firstEdit_def now_updateStock timers_updateStock openModal_def initialHome_def)
  have n2: "now (openModal gadget (advanceTo 2000 firstEdit)) = 2000"
    and t2: "timers (openModal gadget (advanceTo 2000 firstEdit)) = [3000]"
    and p2: "products (openModal gadget (advanceTo 2000 firstEdit)) = [widget\<lparr>stock := 20\<rparr>, gadget]"
    by (simp_all add: openModal_def advanceTo_def n1 t1)
       (simp add: firstEdit_def stock_eval)
  have n: "now secondEdit = 2000"
    by (simp add: secondEdit_def now_updateStock n2)
  have t: "timers secondEdit = [3000, 5000]"
    by (simp add: secondEdit_def timers_updateStock n2 t2)
  have "productNameOf ''2'' [widget\<lparr>stock := 20\<rparr>, gadget] = ''Gadget''"
    by (simp add: productNameOf_def widget_def gadget_def)
  then have m: "successMessage secondEdit = Some (stockMessage ''Gadget'' 7)"
    by (simp add: secondEdit_def successMessage_updateStock p2)
  have a: "successMessage (advanceTo 2999 secondEdit) = Some (stockMessage ''Gadget'' 7)"
    by (simp add: advanceTo_def n t m)
  have b: "successMessage (advanceTo 3000 secondEdit) = None"
    by (simp add: advanceTo_def n t)
  from n m a b show ?thesis by blast
qed


lemma productNameOf_found:
  assumes "find (\<lambda>p. id' p = pid) ps = Some p"
  shows "productNameOf pid ps = (if name p = [] then ''Product'' else name p)"
  using assms by (simp add: productNameOf_def)

lemma stockMessage_contains:
  "(\<exists>pre post. stockMessage nm v = pre @ nm @ post) \<and> (\<exists>pre. stockMessage nm v = pre @ numberToString v)"
proof -
  have "stockMessage nm v = (''Stock for '' @ [CHR 0x22]) @ nm @ ([CHR 0x22] @ '' updated to '' @ numberToString v)"
    by (simp add: stockMessage_def)
  moreover have "stockMessage nm v = (''Stock for '' @ [CHR 0x22] @ nm @ [CHR 0x22] @ '' updated to '') @ numberToString v"
    by (simp add: stockMessage_def)
  ultimately show ?thesis by blast
qed

text \<open>
  C4, as the code has it. After every stock edit of a product of the collection, the
  success message is set and contains the name of the product and the new stock value,
  and a timer that clears the message is added 3000 ms ahead; no pending timer is
  cancelled. From then on the message is cleared as soon as a pending timer is due: 3000
  ms after the edit at the latest, and earlier exactly when a timer of a previous edit is
  due earlier.
\<close>

theorem successMessage_lifetime:
  assumes "find (\<lambda>p. id' p = pid) (products h) = Some p" and "now h \<le> t"
  shows "successMessage (updateStock pid v h) = Some (stockMessage (productNameOf pid (products h)) v)
         \<and> (\<exists>pre post. stockMessage (productNameOf pid (products h)) v = pre @ name p @ post)
         \<and> (\<exists>pre. stockMessage (productNameOf pid (products h)) v = pre @ numberToString v)
         \<and> timers (updateStock pid v h) = timers h @ [now h + 3000]
         \<and> successMessage (advanceTo t (updateStock pid v h))
             = (if now h + 3000 \<le> t \<or> (\<exists>d \<in> set (timers h). d \<le> t) then None
                else Some (stockMessage (productNameOf pid (products h)) v))"
proof -
  have c: "\<exists>pre post. stockMessage (productNameOf pid (products h)) v = pre @ name p @ post"
  proof (cases "name p = []")
    case True
    then have "stockMessage (productNameOf pid (products h)) v
                 = [] @ name p @ stockMessage (productNameOf pid (products h)) v" by simp
    then show ?thesis by blast
  next
    case False
    then have "productNameOf pid (products h) = name p"
      using productNameOf_found [OF assms(1)] by simp
    then show ?thesis using stockMessage_contains [of "name p" v] by simp
  qed
  have n: "\<exists>pre. stockMessage (productNameOf pid (products h)) v = pre @ numberToString v"
    using stockMessage_contains by blast
  have a: "successMessage (advanceTo t (updateStock pid v h))
             = (if now h + 3000 \<le> t \<or> (\<exists>d \<in> set (timers h). d \<le> t) then None
                else Some (stockMessage (productNameOf pid (products h)) v))"
    using assms(2)
    by (auto simp add: advanceTo_due now_updateStock timers_updateStock successMessage_updateStock)
  from successMessage_updateStock [of pid v h] c n timers_updateStock [of pid v h] a
  show ?thesis by blast
qed

theorem successMessage_lifetime_witness:
  "find (\<lambda>p. id' p = ''1'') (products (openModal widget (initialHome [widget, gadget]))) = Some widget
   \<and> now (openModal widget (initialHome [widget, gadget])) \<le> 2999
   \<and> now (openModal widget (initialHome [widget, gadget])) \<le> 3000
   \<and> successMessage firstEdit = Some (stockMessage ''Widget'' 20)
   \<and> successMessage (advanceTo 2999 firstEdit) = Some (stockMessage ''Widget'' 20)
   \<and> successMessage (advanceTo 3000 firstEdit) = None
   \<and> find (\<lambda>p. id' p = ''2'') (products (openModal gadget (advanceTo 2000 firstEdit))) = Some gadget
   \<and> now (openModal gadget (advanceTo 2000 firstEdit)) \<le> 3000
   \<and> timers (openModal gadget (advanceTo 2000 firstEdit)) = [3000]
   \<and> successMessage (advanceTo 3000 secondEdit) = None"
proof -
  have f: "find (\<lambda>p. id' p = ''1'') (products (openModal widget (initialHome [widget, gadget]))) = Some widget"
    by (simp add: openModal_def initialHome_def widget_def)
  have n: "now (openModal widget (initialHome [widget, gadget])) = 0"
    and t: "timers (openModal widget (initialHome [widget, gadget])) = []"
    by (simp_all add: openModal_def initialHome_def)
  have n1: "now (openModal widget (initialHome [widget, gadget])) \<le> 2999"
    and n2: "now (openModal widget (initialHome [widget, gadget])) \<le> 3000"
    by (simp_all add: n)
  have nm: "productNameOf ''1'' (products (openModal widget (initialHome [widget, gadget]))) = ''Widget''"
    using productNameOf_found [OF f] by (simp add: widget_def)
  have m: "successMessage firstEdit = Some (stockMessage ''Widget'' 20)"
    using successMessage_lifetime [OF f n1, of 20] unfolding firstEdit_def nm by blast
  have a: "successMessage (advanceTo 2999 firstEdit) = Some (stockMessage ''Widget'' 20)"
    using successMessage_lifetime [OF f n1, of 20] unfolding firstEdit_def nm
    by (simp add: n t)
  have b: "successMessage (advanceTo 3000 firstEdit) = None"
    using successMessage_lifetime [OF f n2, of 20] unfolding firstEdit_def nm
    by (simp add: n t)
  have n': "now firstEdit = 0" and t': "timers firstEdit = [3000]"
    by (simp_all add: firstEdit_def now_updateStock timers_updateStock n t)
  have g: "find (\<lambda>p. id' p = ''2'') (products (openModal gadget (advanceTo 2000 firstEdit))) = Some gadget"
    by (simp add: openModal_def advanceTo_def n' firstEdit_def stock_eval)
  have n3: "now (openModal gadget (advanceTo 2000 firstEdit)) = 2000"
    and t3: "timers (openModal gadget (advanceTo 2000 firstEdit)) = [3000]"
    by (simp_all add: openModal_def advanceTo_def n' t')
  have n4: "now (openModal gadget (advanceTo 2000 firstEdit)) \<le> 3000"
    by (simp add: n3)
  have c: "successMessage (advanceTo 3000 secondEdit) = None"
    using successMessage_lifetime [OF g n4, of 7] unfolding secondEdit_def
    by (simp add: n3 t3)
  from f n1 n2 m a b g n4 t3 c show ?thesis by blast
qed


end
